theory Spec2Isabelle
  imports Main "HOL-Library.AList" "HOL-Library.Char_ord" "HOL-Library.List_Lexorder"
begin

section \<open>JavaScript values used by the hooks\<close>

text \<open>
  The hooks receive values of type \<open>any\<close> (query parameters, the request body). The model keeps
  the primitive values: \<open>undefined\<close>, \<open>null\<close>, booleans, integral numbers and strings.
  Strings are byte strings; on ASCII text the byte order is the order of JavaScript's default
  \<open>sort\<close>.
\<close>

datatype jsval = JUndefined | JNull | JBool bool | JNum int | JStr string

definition digit_char :: "nat \<Rightarrow> char" where
  "digit_char d = ''0123456789abcdef'' ! d"

definition upper_digit_char :: "nat \<Rightarrow> char" where
  "upper_digit_char d = ''0123456789ABCDEF'' ! d"

fun string_of_nat :: "nat \<Rightarrow> string" where
  "string_of_nat n =
     (if n < 10 then [digit_char n] else string_of_nat (n div 10) @ [digit_char (n mod 10)])"

declare string_of_nat.simps [simp del]

definition string_of_int :: "int \<Rightarrow> string" where
  "string_of_int i = (if i < 0 then ''-'' @ string_of_nat (nat (- i)) else string_of_nat (nat i))"

text \<open>\<open>String(v)\<close>.\<close>

fun String_js :: "jsval \<Rightarrow> string" where
  "String_js JUndefined = ''undefined''"
| "String_js JNull = ''null''"
| "String_js (JBool b) = (if b then ''true'' else ''false'')"
| "String_js (JNum n) = string_of_int n"
| "String_js (JStr s) = s"

text \<open>The truthiness test of \<open>body ? ... : null\<close>.\<close>

fun truthy :: "jsval \<Rightarrow> bool" where
  "truthy JUndefined = False"
| "truthy JNull = False"
| "truthy (JBool b) = b"
| "truthy (JNum n) = (n \<noteq> 0)"
| "truthy (JStr s) = (s \<noteq> [])"

definition json_escape_char :: "char \<Rightarrow> string" where
  "json_escape_char c =
     (let n = (of_char c :: nat) in
      if c = CHR ''\"'' then [CHR 0x5C, CHR ''\"'']
      else if c = CHR 0x5C then [CHR 0x5C, CHR 0x5C]
      else if n = 8 then [CHR 0x5C, CHR ''b'']
      else if n = 9 then [CHR 0x5C, CHR ''t'']
      else if n = 10 then [CHR 0x5C, CHR ''n'']
      else if n = 12 then [CHR 0x5C, CHR ''f'']
      else if n = 13 then [CHR 0x5C, CHR ''r'']
      else if n < 32 then [CHR 0x5C, CHR ''u'', CHR ''0'', CHR ''0'',
                           digit_char (n div 16), digit_char (n mod 16)]
      else [c])"

text \<open>\<open>JSON.stringify(v)\<close> on a truthy primitive (the only values it is applied to).\<close>

fun JSON_stringify :: "jsval \<Rightarrow> string" where
  "JSON_stringify (JStr s) = [CHR ''\"''] @ concat (map json_escape_char s) @ [CHR ''\"'']"
| "JSON_stringify v = String_js v"

section \<open>useFetch: query string, target address and headers\<close>

text \<open>
  A record of type \<open>Record<string, any>\<close> is an association list in insertion order; its keys
  are distinct. \<open>params\<close> is \<open>None\<close> for \<open>null\<close> or an absent argument.
\<close>

type_synonym js_record = "(string \<times> jsval) list"

definition Object_keys :: "js_record \<Rightarrow> string list" where
  "Object_keys obj = map fst obj"

text \<open>\<open>params[key]\<close>: a missing property reads as \<open>undefined\<close>.\<close>

definition get_prop :: "js_record \<Rightarrow> string \<Rightarrow> jsval" where
  "get_prop obj k = (case map_of obj k of None \<Rightarrow> JUndefined | Some v \<Rightarrow> v)"

text \<open>
  \<open>URLSearchParams.toString()\<close>: the form-urlencoded serializer. Alphanumerics and
  \<open>* - . _\<close> stay, a space becomes \<open>+\<close>, any other byte is percent-encoded.
\<close>

definition urlencode_char :: "char \<Rightarrow> string" where
  "urlencode_char c =
     (if c \<in> set ''ABCDEFGHIJKLMNOPQRSTUVWXYZabcdefghijklmnopqrstuvwxyz0123456789*-._'' then [c]
      else if c = CHR '' '' then ''+''
      else [CHR ''%'', upper_digit_char ((of_char c :: nat) div 16),
            upper_digit_char ((of_char c :: nat) mod 16)])"

definition urlencode :: "string \<Rightarrow> string" where
  "urlencode s = concat (map urlencode_char s)"

fun join_amp :: "string list \<Rightarrow> string" where
  "join_amp [] = []"
| "join_amp [x] = x"
| "join_amp (x # y # ys) = x @ ''&'' @ join_amp (y # ys)"

definition searchParams_toString :: "(string \<times> string) list \<Rightarrow> string" where
  "searchParams_toString ps = join_amp (map (\<lambda>(k, v). urlencode k @ ''='' @ urlencode v) ps)"

text \<open>The pairs appended to \<open>searchParams\<close> by the \<open>forEach\<close> over the sorted keys.\<close>

definition appended_pairs :: "js_record \<Rightarrow> (string \<times> string) list" where
  "appended_pairs params = map (\<lambda>key. (key, String_js (get_prop params key))) (sort (Object_keys params))"

definition queryString :: "js_record option \<Rightarrow> string" where
  "queryString params =
     (case params of None \<Rightarrow> [] | Some p \<Rightarrow> searchParams_toString (appended_pairs p))"

definition finalUrl :: "string \<Rightarrow> js_record option \<Rightarrow> string" where
  "finalUrl baseUrl params =
     (if queryString params \<noteq> [] then baseUrl @ ''?'' @ queryString params else baseUrl)"

datatype http_method = GET | POST | PUT | DELETE

record options =
  opt_method :: "http_method option"
  opt_body :: jsval
  opt_headers :: "(string \<times> string) list option"
  opt_immediate :: "bool option"

text \<open>
  Object spread and property assignment: an existing key keeps its position and takes the new
  value, a new key is added at the end.
\<close>

definition spread :: "(string \<times> string) list \<Rightarrow> (string \<times> string) list \<Rightarrow> (string \<times> string) list" where
  "spread src obj = fold (\<lambda>(k, v). AList.update k v) src obj"

text \<open>
  \<open>finalHeaders\<close> as \<open>fetchData\<close> builds it. \<open>uuid\<close> is the value \<open>generateUUID()\<close>
  (\<open>crypto.randomUUID()\<close>) returns at this call; it is asked for only when the method is POST.
\<close>

definition finalHeaders :: "http_method \<Rightarrow> (string \<times> string) list \<Rightarrow> string \<Rightarrow> (string \<times> string) list" where
  "finalHeaders method headers uuid =
     (let h = spread headers [(''Content-Type'', ''application/json'')]
      in if method = POST then AList.update ''Idempotency-Key'' uuid h else h)"

record request =
  req_url :: string
  req_method :: http_method
  req_headers :: "(string \<times> string) list"
  req_body :: "string option"
  req_signal :: nat

text \<open>The argument of the call of \<open>fetch\<close>, from the options read out of \<open>optionsRef.current\<close>.\<close>

definition build_request :: "string \<Rightarrow> js_record option \<Rightarrow> options \<Rightarrow> string \<Rightarrow> nat \<Rightarrow> request" where
  "build_request baseUrl params opts uuid sig =
     (let method = (case opt_method opts of None \<Rightarrow> GET | Some m \<Rightarrow> m);
          headers = (case opt_headers opts of None \<Rightarrow> [] | Some h \<Rightarrow> h);
          body = opt_body opts
      in \<lparr> req_url = finalUrl baseUrl params,
           req_method = method,
           req_headers = finalHeaders method headers uuid,
           req_body = (if truthy body then Some (JSON_stringify body) else None),
           req_signal = sig \<rparr>)"

section \<open>useFetch: the hook's state and its request life cycle\<close>

text \<open>
  An error object (\<open>name\<close>, \<open>message\<close>), the response handed back by \<open>fetch\<close> together with
  what \<open>response.json()\<close> settles to, and the two ways the awaited calls can end.
\<close>

record js_error =
  err_name :: string
  err_message :: string

record 'a response =
  ok :: bool
  status :: nat
  statusText :: string
  json :: "js_error + 'a"

datatype 'a outcome = Rejected js_error | Resolved "'a response"

text \<open>
  The state cells of one mounted hook: the three \<open>useState\<close> cells, the two refs, and the
  environment the hook talks to. Every \<open>AbortController\<close> ever created has an index in
  \<open>signals\<close>, which stores its \<open>signal.aborted\<close> flag. \<open>sent\<close> lists the calls of
  \<open>fetch\<close>, \<open>inflight\<close> the controllers of the calls whose promise has not settled.
\<close>

record 'a hook =
  data :: "'a option"
  loading :: bool
  error :: "string option"
  activeController :: "nat option"
  optionsRef :: options
  signals :: "bool list"
  sent :: "request list"
  inflight :: "nat list"

record props =
  baseUrl :: string
  params :: "js_record option"
  options :: options

definition aborted :: "'a hook \<Rightarrow> nat \<Rightarrow> bool" where
  "aborted s c = (c < length (signals s) \<and> signals s ! c)"

definition abort :: "nat \<Rightarrow> 'a hook \<Rightarrow> 'a hook" where
  "abort c s = s\<lparr>signals := (signals s)[c := True]\<rparr>"

text \<open>
  \<open>fetchData\<close> up to its first \<open>await\<close>: abort the stored controller, create and store a new
  one, set \<open>loading\<close>, clear \<open>error\<close>, build the request and call \<open>fetch\<close>.
\<close>

definition fetchData :: "string \<Rightarrow> js_record option \<Rightarrow> string \<Rightarrow> 'a hook \<Rightarrow> 'a hook" where
  "fetchData url ps uuid s =
     (let s1 = (case activeController s of Some c \<Rightarrow> abort c s | None \<Rightarrow> s);
          controller = length (signals s1);
          s2 = s1\<lparr>signals := signals s1 @ [False], activeController := Some controller\<rparr>;
          s3 = s2\<lparr>loading := True, error := None\<rparr>
      in s3\<lparr>sent := sent s3 @ [build_request url ps (optionsRef s3) uuid controller],
            inflight := inflight s3 @ [controller]\<rparr>)"

text \<open>The \<open>catch\<close> and the \<open>finally\<close> blocks of \<open>fetchData\<close>, for the request of controller \<open>c\<close>.\<close>

definition catch_block :: "js_error \<Rightarrow> 'a hook \<Rightarrow> 'a hook" where
  "catch_block err s =
     (if err_name err \<noteq> ''AbortError'' then s\<lparr>error := Some (err_message err)\<rparr> else s)"

definition finally_block :: "nat \<Rightarrow> 'a hook \<Rightarrow> 'a hook" where
  "finally_block c s = (if \<not> aborted s c then s\<lparr>loading := False\<rparr> else s)"

definition http_error :: "'a response \<Rightarrow> js_error" where
  "http_error r =
     \<lparr> err_name = ''Error'',
       err_message = ''Error: '' @ string_of_nat (status r) @ '' '' @ statusText r \<rparr>"

text \<open>
  The rest of \<open>fetchData\<close> after its awaits. Between the two awaits the code touches no cell
  of the hook, so the continuation reads the state once, when the last awaited promise has
  settled.
\<close>

definition fetchData_settle :: "nat \<Rightarrow> 'a outcome \<Rightarrow> 'a hook \<Rightarrow> 'a hook" where
  "fetchData_settle c out s =
     finally_block c
       (case out of
          Rejected err \<Rightarrow> catch_block err s
        | Resolved r \<Rightarrow>
            if \<not> ok r then catch_block (http_error r) s
            else (case json r of
                    Inl err \<Rightarrow> catch_block err s
                  | Inr result \<Rightarrow> if \<not> aborted s c then s\<lparr>data := Some result\<rparr> else s))"

text \<open>The cleanup returned by the mount effect, and the effect's body.\<close>

definition cleanup :: "'a hook \<Rightarrow> 'a hook" where
  "cleanup s =
     (case activeController s of
        Some c \<Rightarrow> (abort c s)\<lparr>activeController := None\<rparr>
      | None \<Rightarrow> s)"

definition mount_effect :: "props \<Rightarrow> string \<Rightarrow> 'a hook \<Rightarrow> 'a hook" where
  "mount_effect p uuid s =
     (if opt_immediate (options p) \<noteq> Some False then fetchData (baseUrl p) (params p) uuid s
      else s)"

definition useFetch_init :: "props \<Rightarrow> 'a hook" where
  "useFetch_init p =
     \<lparr> data = None, loading = False, error = None, activeController = None,
       optionsRef = options p, signals = [], sent = [], inflight = [] \<rparr>"

text \<open>The first render followed by its effects.\<close>

definition useFetch_mount :: "props \<Rightarrow> string \<Rightarrow> 'a hook" where
  "useFetch_mount p uuid = mount_effect p uuid ((useFetch_init p)\<lparr>optionsRef := options p\<rparr>)"

text \<open>
  What can happen to a mounted hook. A later render with props \<open>p\<close>, after props \<open>p0\<close>, stores
  the options and, when a dependency of the mount effect changed (\<open>fetchData\<close> is rebuilt when
  \<open>baseUrl\<close> or the query string changes), runs the cleanup and the effect again. \<open>refetch\<close> is
  the \<open>fetchData\<close> of the latest render. A request settles only while it is in flight. Each
  event that may call \<open>generateUUID\<close> carries the value it would return.
\<close>

datatype 'a event =
    Rerender props props string
  | Refetch props string
  | Settle nat "'a outcome"
  | Unmount

definition deps_changed :: "props \<Rightarrow> props \<Rightarrow> bool" where
  "deps_changed p0 p =
     (baseUrl p \<noteq> baseUrl p0 \<or> queryString (params p) \<noteq> queryString (params p0)
      \<or> opt_immediate (options p) \<noteq> opt_immediate (options p0))"

fun step :: "'a event \<Rightarrow> 'a hook \<Rightarrow> 'a hook option" where
  "step (Rerender p0 p uuid) s =
     (let s1 = s\<lparr>optionsRef := options p\<rparr>
      in Some (if deps_changed p0 p then mount_effect p uuid (cleanup s1) else s1))"
| "step (Refetch p uuid) s = Some (fetchData (baseUrl p) (params p) uuid s)"
| "step (Settle c out) s =
     (if c \<in> set (inflight s)
      then Some (fetchData_settle c out (s\<lparr>inflight := removeAll c (inflight s)\<rparr>))
      else None)"
| "step Unmount s = Some (cleanup s)"

fun run :: "'a event list \<Rightarrow> 'a hook \<Rightarrow> 'a hook option" where
  "run [] s = Some s"
| "run (e # es) s = (case step e s of None \<Rightarrow> None | Some s' \<Rightarrow> run es s')"

section \<open>useThrottle\<close>












section \<open>useDebounce\<close>

text \<open>
  Modelled from the spec: the source file of \<open>useDebounce\<close> is missing; only its documentation
  and a caller remain. The spec describes it as delaying the propagation of a value until input
  activity pauses for a fixed duration: the debounced value only updates after a quiet period
  with no new input. The model is a single pending wait: every input cancels the wait in
  progress and starts one of the fixed duration for the new value; when a wait elapses with no
  newer input, its value becomes the debounced value.
\<close>

record 'a debounce =
  debouncedValue :: 'a
  wait :: "(int \<times> int \<times> 'a) option"

text \<open>
  Modelled from the spec: the hook starts with the value it is given and no wait in progress.
\<close>

definition useDebounce_init :: "'a \<Rightarrow> 'a debounce" where
  "useDebounce_init v = \<lparr> debouncedValue = v, wait = None \<rparr>"

datatype 'a devent = Input int 'a | Elapse int

fun dtime :: "'a devent \<Rightarrow> int" where
  "dtime (Input now v) = now"
| "dtime (Elapse now) = now"

text \<open>
  Modelled from the spec: an input at time \<open>now\<close> replaces the wait in progress by a wait of
  the fixed duration for the new value; a wait started at \<open>t0\<close> elapses at a time \<open>now\<close> with
  \<open>t0 + d \<le> now\<close>, and then its value is propagated.
\<close>

fun dstep :: "int \<Rightarrow> 'a devent \<Rightarrow> 'a debounce \<Rightarrow> 'a debounce option" where
  "dstep delay (Input now v) s = Some (s\<lparr>wait := Some (now, delay, v)\<rparr>)"
| "dstep delay (Elapse now) s =
     (case wait s of
        None \<Rightarrow> None
      | Some (t0, d, v) \<Rightarrow>
          if t0 + d \<le> now then Some (s\<lparr>debouncedValue := v, wait := None\<rparr>) else None)"

fun drun :: "int \<Rightarrow> 'a devent list \<Rightarrow> 'a debounce \<Rightarrow> 'a debounce option" where
  "drun delay [] s = Some s"
| "drun delay (e # es) s = (case dstep delay e s of None \<Rightarrow> None | Some s' \<Rightarrow> drun delay es s')"

fun input_times :: "'a devent list \<Rightarrow> int list" where
  "input_times [] = []"
| "input_times (Input now v # es) = now # input_times es"
| "input_times (Elapse now # es) = input_times es"

section \<open>Invariants and example calls\<close>

text \<open>
  The invariant of the controller bookkeeping: every controller other than the stored one is
  aborted, and the stored controller and the controllers of the requests in flight exist.
\<close>

definition hook_inv :: "'a hook \<Rightarrow> bool" where
  "hook_inv s =
     ((\<forall>c < length (signals s). activeController s \<noteq> Some c \<longrightarrow> signals s ! c)
      \<and> (\<forall>c. activeController s = Some c \<longrightarrow> c < length (signals s))
      \<and> (\<forall>c \<in> set (inflight s). c < length (signals s)))"


text \<open>A pending wait of the debouncer has the fixed duration and started at the latest input.\<close>

definition wait_ok :: "int \<Rightarrow> 'a devent list \<Rightarrow> 'a debounce \<Rightarrow> bool" where
  "wait_ok delay es s =
     (case wait s of None \<Rightarrow> True
      | Some (t0, d, v) \<Rightarrow> d = delay \<and> (\<forall>u \<in> set (input_times es). u \<le> t0))"

text \<open>The two calls of the documentation's example.\<close>

definition transactions_props :: props where
  "transactions_props =
     \<lparr> baseUrl = ''/api/transactions'', params = Some [(''page'', JNum 1)],
       options = \<lparr> opt_method = None, opt_body = JUndefined, opt_headers = None,
                   opt_immediate = None \<rparr> \<rparr>"

definition pay_props :: props where
  "pay_props =
     \<lparr> baseUrl = ''/api/pay'', params = None,
       options = \<lparr> opt_method = Some POST, opt_body = JUndefined, opt_headers = None,
                   opt_immediate = Some False \<rparr> \<rparr>"

text \<open>
  An example run: the first call mounts and fetches at once (controller 0), a \<open>refetch\<close>
  follows while that request is in flight (controller 1), and the second request settles with
  a parsed body.
\<close>

definition ok_response :: "nat \<Rightarrow> nat response" where
  "ok_response n = \<lparr> ok = True, status = 200, statusText = ''OK'', json = Inr n \<rparr>"

definition mounted :: "nat hook" where
  "mounted = useFetch_mount transactions_props ''uuid-0''"

definition refetched :: "nat hook" where
  "refetched = fetchData (baseUrl transactions_props) (params transactions_props) ''uuid-1'' mounted"

definition settled :: "nat hook" where
  "settled = fetchData_settle 1 (Resolved (ok_response 7))
               (refetched\<lparr>inflight := removeAll 1 (inflight refetched)\<rparr>)"

section \<open>Properties of the query string\<close>

lemma same_entries_pairs:
  assumes "distinct (Object_keys p)" "distinct (Object_keys q)" "set p = set q"
  shows "appended_pairs p = appended_pairs q"
proof -
  have m: "map_of p = map_of q"
    using assms by (simp add: map_of_inject_set Object_keys_def)
  have "set (Object_keys p) = set (Object_keys q)"
    using assms(3) by (simp add: Object_keys_def)
  then have "sort (Object_keys p) = sort (Object_keys q)"
    using assms(1,2) by (simp add: sorted_distinct_set_unique)
  then show ?thesis
    by (simp add: appended_pairs_def get_prop_def m)
qed

lemma appended_keys: "map fst (appended_pairs p) = sort (Object_keys p)"
  by (simp add: appended_pairs_def comp_def)

text \<open>
  Claim C7. For a params record (keys distinct, as in any object) the query string lists the
  keys in ascending order, so two records with the same entries, in whatever insertion order,
  give the same query string and the same request URL; with \<open>null\<close> or absent params the URL is
  \<open>baseUrl\<close> itself, with no \<open>?\<close>.
\<close>

theorem query_string_sorted_keys:
  assumes "distinct (Object_keys p)" and "distinct (Object_keys q)" and "set p = set q"
  shows "sorted (map fst (appended_pairs p))
       \<and> set (map fst (appended_pairs p)) = set (Object_keys p)
       \<and> queryString (Some p) = queryString (Some q)
       \<and> finalUrl b (Some p) = finalUrl b (Some q)
       \<and> finalUrl b None = b"
proof -
  have keys: "map fst (appended_pairs p) = sort (Object_keys p)"
    by (rule appended_keys)
  have same: "appended_pairs p = appended_pairs q"
    using assms by (rule same_entries_pairs)
  have "sorted (map fst (appended_pairs p))"
    by (simp only: keys sorted_sort)
  moreover have "set (map fst (appended_pairs p)) = set (Object_keys p)"
    by (simp only: keys set_sort)
  moreover have "queryString (Some p) = queryString (Some q)"
    by (simp add: queryString_def same)
  moreover from this have "finalUrl b (Some p) = finalUrl b (Some q)"
    by (simp add: finalUrl_def)
  moreover have "finalUrl b None = b"
    by (simp add: finalUrl_def queryString_def)
  ultimately show ?thesis by blast
qed

theorem query_string_sorted_keys_witness:
  "queryString (Some [(''b'', JNum 2), (''a'', JStr ''x y'')]) = ''a=x+y&b=2''
 \<and> finalUrl ''/api'' (Some [(''b'', JNum 2), (''a'', JStr ''x y'')])
   = finalUrl ''/api'' (Some [(''a'', JStr ''x y''), (''b'', JNum 2)])
 \<and> finalUrl ''/api'' None = ''/api''"
  using query_string_sorted_keys [of "[(''b'', JNum 2), (''a'', JStr ''x y'')]"
      "[(''a'', JStr ''x y''), (''b'', JNum 2)]" "''/api''"]
  by (simp add: Object_keys_def insert_commute) code_simp

section \<open>Properties of the request headers\<close>

lemma keys_fold_update:
  "fst ` set (fold (\<lambda>(k, v). AList.update k v) src obj) = fst ` set src \<union> fst ` set obj"
proof (induction src arbitrary: obj)
  case Nil
  show ?case by simp
next
  case (Cons kv src)
  obtain k v where kv: "kv = (k, v)" by (cases kv)
  have "fst ` set (AList.update k v obj) = {k} \<union> fst ` set obj"
    by (rule dom_update)
  then show ?case
    using Cons.IH [of "AList.update k v obj"] by (simp add: kv)
qed

lemma keys_spread: "fst ` set (spread src obj) = fst ` set src \<union> fst ` set obj"
  by (simp add: spread_def keys_fold_update)

lemma sent_fetchData:
  "sent (fetchData b q u s) = sent s @ [build_request b q (optionsRef s) u (length (signals s))]"
  by (simp add: fetchData_def Let_def abort_def split: option.splits)

lemma finalHeaders_POST: "map_of (finalHeaders POST h u) ''Idempotency-Key'' = Some u"
  by (simp add: finalHeaders_def Let_def update_conv')

lemma key_not_POST:
  "m \<noteq> POST \<Longrightarrow>
   (''Idempotency-Key'' \<in> fst ` set (finalHeaders m h u)) = (''Idempotency-Key'' \<in> fst ` set h)"
  by (simp add: finalHeaders_def Let_def keys_spread)

text \<open>
  Claim C2, as the code has it. A request whose method is POST carries the header
  \<open>Idempotency-Key\<close>, holding the UUID generated for this call. For GET, PUT and DELETE the hook
  adds no such header: the request has one exactly when the caller's own headers have one.
\<close>

theorem idempotency_key_only_for_POST:
  fixes s :: "'a hook"
  shows "let r = last (sent (fetchData url ps uuid s));
           hdrs = (case opt_headers (optionsRef s) of None \<Rightarrow> [] | Some h \<Rightarrow> h)
       in (req_method r = POST \<longrightarrow> map_of (req_headers r) ''Idempotency-Key'' = Some uuid)
        \<and> (req_method r \<noteq> POST \<longrightarrow>
             (''Idempotency-Key'' \<in> fst ` set (req_headers r)) = (''Idempotency-Key'' \<in> fst ` set hdrs))"
  by (simp add: sent_fetchData build_request_def Let_def finalHeaders_POST key_not_POST)

theorem idempotency_key_only_for_POST_witness:
  "req_method (last (sent (fetchData ''/api/pay'' None ''uuid-1'' (useFetch_init pay_props :: nat hook)))) = POST
 \<and> map_of (req_headers (last (sent (fetchData ''/api/pay'' None ''uuid-1''
       (useFetch_init pay_props :: nat hook))))) ''Idempotency-Key'' = Some ''uuid-1''
 \<and> req_method (last (sent (fetchData ''/api/transactions'' None ''uuid-1''
       (useFetch_init transactions_props :: nat hook)))) \<noteq> POST
 \<and> ''Idempotency-Key'' \<notin> fst ` set (req_headers (last (sent (fetchData ''/api/transactions'' None ''uuid-1''
       (useFetch_init transactions_props :: nat hook)))))"
  using idempotency_key_only_for_POST [of "''/api/pay''" None "''uuid-1''" "useFetch_init pay_props :: nat hook"]
    idempotency_key_only_for_POST [of "''/api/transactions''" None "''uuid-1''" "useFetch_init transactions_props :: nat hook"]
  by (simp add: Let_def sent_fetchData build_request_def useFetch_init_def pay_props_def transactions_props_def)

text \<open>
  Counterexample to claim C2 as stated: a PUT request with no headers of the caller's goes out without
  \<open>Idempotency-Key\<close>.
\<close>

theorem PUT_without_idempotency_key:
  "map_of (req_headers (last (sent (fetchData ''/api/item'' None ''uuid-1''
      (useFetch_init \<lparr> baseUrl = ''/api/item'', params = None,
          options = \<lparr> opt_method = Some PUT, opt_body = JStr ''x'', opt_headers = None,
                      opt_immediate = Some False \<rparr> \<rparr> :: nat hook)))))
     ''Idempotency-Key'' = None"
  by (simp add: sent_fetchData useFetch_init_def build_request_def finalHeaders_def spread_def)

text \<open>
  Claim C5, as the code has it. The \<open>Idempotency-Key\<close> of a POST request is the UUID drawn from
  \<open>generateUUID\<close> at that call of \<open>fetchData\<close>, whatever the URL, the params, the body and the
  state of the hook: two calls carry the same key exactly when the two draws are equal.
\<close>

theorem idempotency_key_is_the_draw:
  fixes s1 s2 :: "'a hook"
  assumes "opt_method (optionsRef s1) = Some POST" and "opt_method (optionsRef s2) = Some POST"
  shows "(map_of (req_headers (last (sent (fetchData url1 ps1 uuid1 s1)))) ''Idempotency-Key''
        = map_of (req_headers (last (sent (fetchData url2 ps2 uuid2 s2)))) ''Idempotency-Key'')
       = (uuid1 = uuid2)"
  using assms by (simp add: sent_fetchData build_request_def Let_def finalHeaders_POST)

theorem idempotency_key_is_the_draw_witness:
  "opt_method (optionsRef (useFetch_init pay_props :: nat hook)) = Some POST
 \<and> (map_of (req_headers (last (sent (fetchData ''/api/pay'' None ''uuid-1''
        (useFetch_init pay_props :: nat hook))))) ''Idempotency-Key''
    = map_of (req_headers (last (sent (fetchData ''/api/pay'' None ''uuid-1''
        (useFetch_init pay_props :: nat hook))))) ''Idempotency-Key'')
 \<and> (map_of (req_headers (last (sent (fetchData ''/api/pay'' None ''uuid-1''
        (useFetch_init pay_props :: nat hook))))) ''Idempotency-Key''
    \<noteq> map_of (req_headers (last (sent (fetchData ''/api/pay'' None ''uuid-2''
        (useFetch_init pay_props :: nat hook))))) ''Idempotency-Key'')"
proof -
  have h: "opt_method (optionsRef (useFetch_init pay_props :: nat hook)) = Some POST"
    by (simp add: useFetch_init_def pay_props_def)
  show ?thesis
    using h idempotency_key_is_the_draw [OF h h, of "''/api/pay''" None "''uuid-1''" "''/api/pay''" None "''uuid-2''"]
    by simp
qed

text \<open>
  Counterexample to claim C5 as stated: two calls with the same URL, method and body, the second a retry
  of the first, carry different keys when \<open>crypto.randomUUID()\<close> returns different values, as
  it does from one call to the next.
\<close>

theorem same_request_different_keys:
  "req_url (last (sent (fetchData ''/api/pay'' None ''uuid-1'' (useFetch_init pay_props :: nat hook))))
     = req_url (last (sent (fetchData ''/api/pay'' None ''uuid-2''
         (fetchData ''/api/pay'' None ''uuid-1'' (useFetch_init pay_props :: nat hook)))))
 \<and> req_method (last (sent (fetchData ''/api/pay'' None ''uuid-1'' (useFetch_init pay_props :: nat hook))))
     = req_method (last (sent (fetchData ''/api/pay'' None ''uuid-2''
         (fetchData ''/api/pay'' None ''uuid-1'' (useFetch_init pay_props :: nat hook)))))
 \<and> req_body (last (sent (fetchData ''/api/pay'' None ''uuid-1'' (useFetch_init pay_props :: nat hook))))
     = req_body (last (sent (fetchData ''/api/pay'' None ''uuid-2''
         (fetchData ''/api/pay'' None ''uuid-1'' (useFetch_init pay_props :: nat hook)))))
 \<and> map_of (req_headers (last (sent (fetchData ''/api/pay'' None ''uuid-1''
       (useFetch_init pay_props :: nat hook))))) ''Idempotency-Key''
     \<noteq> map_of (req_headers (last (sent (fetchData ''/api/pay'' None ''uuid-2''
         (fetchData ''/api/pay'' None ''uuid-1'' (useFetch_init pay_props :: nat hook)))))) ''Idempotency-Key''"
  by (simp add: sent_fetchData build_request_def Let_def finalHeaders_POST fetchData_def
      abort_def useFetch_init_def pay_props_def)

section \<open>Properties of the request life cycle\<close>

lemma nth_update_True: "j < length xs \<Longrightarrow> xs[i := True] ! j = (i = j \<or> xs ! j)"
  by (cases "i = j") simp_all

lemma signals_fetchData:
  "signals (fetchData b q u s) =
     (case activeController s of None \<Rightarrow> signals s | Some c \<Rightarrow> (signals s)[c := True]) @ [False]"
  by (simp add: fetchData_def Let_def abort_def split: option.splits)

lemma active_fetchData: "activeController (fetchData b q u s) = Some (length (signals s))"
  by (simp add: fetchData_def Let_def abort_def split: option.splits)

lemma inflight_fetchData: "inflight (fetchData b q u s) = inflight s @ [length (signals s)]"
  by (simp add: fetchData_def Let_def abort_def split: option.splits)

lemma data_fetchData: "data (fetchData b q u s) = data s"
  by (simp add: fetchData_def Let_def abort_def split: option.splits)

lemma hook_inv_fetchData: "hook_inv s \<Longrightarrow> hook_inv (fetchData b q u s)"
  unfolding hook_inv_def signals_fetchData active_fetchData inflight_fetchData
  by (auto simp: nth_append nth_update_True less_Suc_eq split: option.splits)

lemma fetchData_aborts_inflight:
  "hook_inv s \<Longrightarrow> c \<in> set (inflight s) \<Longrightarrow> aborted (fetchData b q u s) c"
  unfolding hook_inv_def aborted_def signals_fetchData
  by (auto simp: nth_append nth_update_True split: option.splits)

lemma fetchData_new_controller:
  "\<not> aborted (fetchData b q u s) (length (signals s))"
  unfolding aborted_def signals_fetchData
  by (auto simp: nth_append split: option.splits)

lemma signals_settle: "signals (fetchData_settle c out s) = signals s"
  by (simp add: fetchData_settle_def finally_block_def catch_block_def
      split: outcome.splits sum.splits)

lemma active_settle: "activeController (fetchData_settle c out s) = activeController s"
  by (simp add: fetchData_settle_def finally_block_def catch_block_def
      split: outcome.splits sum.splits)

lemma inflight_settle: "inflight (fetchData_settle c out s) = inflight s"
  by (simp add: fetchData_settle_def finally_block_def catch_block_def
      split: outcome.splits sum.splits)

lemma sent_settle: "sent (fetchData_settle c out s) = sent s"
  by (simp add: fetchData_settle_def finally_block_def catch_block_def
      split: outcome.splits sum.splits)

lemma settle_aborted_keeps_data: "aborted s c \<Longrightarrow> data (fetchData_settle c out s) = data s"
  by (simp add: fetchData_settle_def finally_block_def catch_block_def
      split: outcome.splits sum.splits)

lemma signals_cleanup:
  "signals (cleanup s) =
     (case activeController s of None \<Rightarrow> signals s | Some c \<Rightarrow> (signals s)[c := True])"
  by (simp add: cleanup_def abort_def split: option.splits)

lemma active_cleanup: "activeController (cleanup s) = None"
  by (simp add: cleanup_def abort_def split: option.splits)

lemma inflight_cleanup: "inflight (cleanup s) = inflight s"
  by (simp add: cleanup_def abort_def split: option.splits)

lemma sent_cleanup: "sent (cleanup s) = sent s"
  by (simp add: cleanup_def abort_def split: option.splits)

lemma hook_inv_cleanup: "hook_inv s \<Longrightarrow> hook_inv (cleanup s)"
  unfolding hook_inv_def signals_cleanup active_cleanup inflight_cleanup
  by (auto simp: nth_update_True split: option.splits)

lemma aborted_cleanup: "aborted s c \<Longrightarrow> aborted (cleanup s) c"
  unfolding aborted_def signals_cleanup
  by (auto simp: nth_update_True split: option.splits)

lemma aborted_fetchData: "aborted s c \<Longrightarrow> aborted (fetchData b q u s) c"
  unfolding aborted_def signals_fetchData
  by (auto simp: nth_append nth_update_True split: option.splits)

lemma hook_inv_mount_effect: "hook_inv s \<Longrightarrow> hook_inv (mount_effect p u s)"
  by (simp add: mount_effect_def hook_inv_fetchData)

lemma aborted_mount_effect: "aborted s c \<Longrightarrow> aborted (mount_effect p u s) c"
  by (simp add: mount_effect_def aborted_fetchData)

lemma hook_inv_step: "hook_inv s \<Longrightarrow> step e s = Some s' \<Longrightarrow> hook_inv s'"
proof (cases e)
  case (Rerender p0 p u)
  assume "hook_inv s" "step e s = Some s'"
  moreover have "hook_inv s \<Longrightarrow> hook_inv (s\<lparr>optionsRef := options p\<rparr>)"
    by (simp add: hook_inv_def)
  ultimately show ?thesis using Rerender
    by (auto simp: Let_def hook_inv_mount_effect hook_inv_cleanup split: if_splits)
next
  case (Refetch p u)
  assume "hook_inv s" "step e s = Some s'"
  then show ?thesis using Refetch by (auto simp: hook_inv_fetchData)
next
  case (Settle c out)
  assume "hook_inv s" "step e s = Some s'"
  then show ?thesis using Settle
    by (auto simp: hook_inv_def signals_settle active_settle inflight_settle split: if_splits)
next
  case Unmount
  assume "hook_inv s" "step e s = Some s'"
  then show ?thesis using Unmount by (auto simp: hook_inv_cleanup)
qed

lemma aborted_step: "aborted s c \<Longrightarrow> step e s = Some s' \<Longrightarrow> aborted s' c"
proof (cases e)
  case (Rerender p0 p u)
  assume "aborted s c" "step e s = Some s'"
  moreover have "aborted s c \<Longrightarrow> aborted (s\<lparr>optionsRef := options p\<rparr>) c"
    by (simp add: aborted_def)
  ultimately show ?thesis using Rerender
    by (auto simp: Let_def aborted_mount_effect aborted_cleanup split: if_splits)
next
  case (Refetch p u)
  assume "aborted s c" "step e s = Some s'"
  then show ?thesis using Refetch by (auto simp: aborted_fetchData)
next
  case (Settle c' out)
  assume "aborted s c" "step e s = Some s'"
  then show ?thesis using Settle
    by (auto simp: aborted_def signals_settle split: if_splits)
next
  case Unmount
  assume "aborted s c" "step e s = Some s'"
  then show ?thesis using Unmount by (auto simp: aborted_cleanup)
qed

lemma hook_inv_run: "hook_inv s \<Longrightarrow> run es s = Some s' \<Longrightarrow> hook_inv s'"
  by (induction es arbitrary: s) (auto split: option.splits dest: hook_inv_step)

lemma aborted_run: "aborted s c \<Longrightarrow> run es s = Some s' \<Longrightarrow> aborted s' c"
  by (induction es arbitrary: s) (auto split: option.splits dest: aborted_step)

lemma hook_inv_init: "hook_inv (useFetch_init p)"
  by (simp add: hook_inv_def useFetch_init_def)

lemma hook_inv_mount: "hook_inv (useFetch_mount p u)"
proof -
  have "hook_inv ((useFetch_init p)\<lparr>optionsRef := options p\<rparr>)"
    by (simp add: hook_inv_def useFetch_init_def)
  then show ?thesis unfolding useFetch_mount_def by (rule hook_inv_mount_effect)
qed

lemma req_signal_build: "req_signal (build_request b q opts u c) = c"
  by (simp add: build_request_def Let_def)

lemma step_sends_is_fetchData:
  assumes "hook_inv s" and "step e s = Some s'" and "sent s' \<noteq> sent s"
  shows "\<exists>b q u s0. s' = fetchData b q u s0 \<and> hook_inv s0 \<and> inflight s0 = inflight s
           \<and> sent s0 = sent s"
proof (cases e)
  case (Rerender p0 p u)
  let ?s1 = "s\<lparr>optionsRef := options p\<rparr>"
  have "hook_inv ?s1" using assms(1) by (simp add: hook_inv_def)
  then have inv1: "hook_inv (cleanup ?s1)" by (rule hook_inv_cleanup)
  from assms(2,3) Rerender
  have "s' = fetchData (baseUrl p) (params p) u (cleanup ?s1)"
    by (auto simp: Let_def mount_effect_def sent_cleanup split: if_splits)
  moreover have "inflight (cleanup ?s1) = inflight s" "sent (cleanup ?s1) = sent s"
    by (simp_all add: inflight_cleanup sent_cleanup)
  ultimately show ?thesis using inv1 by blast
next
  case (Refetch p u)
  then have "s' = fetchData (baseUrl p) (params p) u s" using assms(2) by simp
  then show ?thesis using assms(1) by blast
next
  case (Settle c' out)
  then show ?thesis using assms by (auto simp: sent_settle split: if_splits)
next
  case Unmount
  then show ?thesis using assms by (auto simp: sent_cleanup)
qed

text \<open>The states of the example run.\<close>

lemma mounted_eq:
  "mounted = \<lparr> data = None, loading = True, error = None, activeController = Some 0,
       optionsRef = options transactions_props, signals = [False],
       sent = [build_request ''/api/transactions'' (Some [(''page'', JNum 1)])
                 (options transactions_props) ''uuid-0'' 0],
       inflight = [0] \<rparr>"
  by (simp add: mounted_def useFetch_mount_def mount_effect_def fetchData_def Let_def
      useFetch_init_def transactions_props_def)

lemma refetched_eq:
  "refetched = \<lparr> data = None, loading = True, error = None, activeController = Some 1,
       optionsRef = options transactions_props, signals = [True, False],
       sent = [build_request ''/api/transactions'' (Some [(''page'', JNum 1)])
                 (options transactions_props) ''uuid-0'' 0,
               build_request ''/api/transactions'' (Some [(''page'', JNum 1)])
                 (options transactions_props) ''uuid-1'' 1],
       inflight = [0, 1] \<rparr>"
  by (simp add: refetched_def mounted_eq fetchData_def Let_def abort_def transactions_props_def)

lemma settled_eq:
  "settled = \<lparr> data = Some 7, loading = False, error = None, activeController = Some 1,
       optionsRef = options transactions_props, signals = [True, False],
       sent = [build_request ''/api/transactions'' (Some [(''page'', JNum 1)])
                 (options transactions_props) ''uuid-0'' 0,
               build_request ''/api/transactions'' (Some [(''page'', JNum 1)])
                 (options transactions_props) ''uuid-1'' 1],
       inflight = [0] \<rparr>"
  by (simp add: settled_def refetched_eq fetchData_settle_def finally_block_def aborted_def
      ok_response_def)

text \<open>
  Claim C1. In any state the hook reaches after mounting, when a step starts a new fetch (a
  \<open>refetch\<close> or a run of the mount effect) while a request \<open>c\<close> is in flight, then after that
  step the controller of \<open>c\<close> is aborted, and the request just sent has another controller,
  which is not aborted. The controller of \<open>c\<close> stays aborted whatever happens next, and when
  \<open>c\<close> settles later, with any outcome, \<open>data\<close> is left as it is. In general a settling
  request changes \<open>data\<close> only if its signal is not aborted at that time.
\<close>

theorem superseded_request_is_aborted:
  fixes s :: "'a hook"
  assumes reach: "run es (useFetch_mount p0 u0) = Some s"
    and new: "step e s = Some s'" "sent s' \<noteq> sent s"
    and prev: "c \<in> set (inflight s)"
    and later: "run es' s' = Some s''"
  shows "aborted s' c
       \<and> (\<exists>r. sent s' = sent s @ [r] \<and> req_signal r \<noteq> c \<and> \<not> aborted s' (req_signal r))
       \<and> aborted s'' c
       \<and> data (fetchData_settle c out s'') = data s''
       \<and> (\<forall>c' out' t. data (fetchData_settle c' out' t) \<noteq> data (t :: 'a hook) \<longrightarrow> \<not> aborted t c')"
proof -
  have inv: "hook_inv s"
    using hook_inv_mount reach by (rule hook_inv_run)
  obtain b q u s0 where s': "s' = fetchData b q u s0" and inv0: "hook_inv s0"
    and infl: "inflight s0 = inflight s" and snt: "sent s0 = sent s"
    using step_sends_is_fetchData [OF inv new] by blast
  have c0: "c \<in> set (inflight s0)" using prev infl by simp
  have a1: "aborted s' c"
    unfolding s' using inv0 c0 by (rule fetchData_aborts_inflight)
  have a2: "aborted s'' c"
    using a1 later by (rule aborted_run)
  have d: "data (fetchData_settle c out s'') = data s''"
    using a2 by (rule settle_aborted_keeps_data)
  let ?r = "build_request b q (optionsRef s0) u (length (signals s0))"
  have "c < length (signals s0)" using inv0 c0 by (simp add: hook_inv_def)
  then have "sent s' = sent s @ [?r] \<and> req_signal ?r \<noteq> c \<and> \<not> aborted s' (req_signal ?r)"
    by (simp add: s' sent_fetchData snt req_signal_build fetchData_new_controller)
  then have fresh: "\<exists>r. sent s' = sent s @ [r] \<and> req_signal r \<noteq> c \<and> \<not> aborted s' (req_signal r)"
    by blast
  have only: "\<forall>c' out' t. data (fetchData_settle c' out' t) \<noteq> data (t :: 'a hook) \<longrightarrow> \<not> aborted t c'"
    using settle_aborted_keeps_data by blast
  show ?thesis using a1 a2 d fresh only by blast
qed


theorem superseded_request_is_aborted_witness:
  "run [] (useFetch_mount transactions_props ''uuid-0'') = Some mounted
 \<and> step (Refetch transactions_props ''uuid-1'') mounted = Some refetched
 \<and> sent refetched \<noteq> sent mounted
 \<and> 0 \<in> set (inflight mounted)
 \<and> run [Settle 1 (Resolved (ok_response 7))] refetched = Some settled
 \<and> aborted refetched 0
 \<and> aborted settled 0
 \<and> data settled = Some 7
 \<and> data (fetchData_settle 0 (Resolved (ok_response 99)) settled) = Some 7"
proof -
  have h1: "run [] (useFetch_mount transactions_props ''uuid-0'') = Some mounted"
    by (simp add: mounted_def)
  have h2: "step (Refetch transactions_props ''uuid-1'') mounted = Some refetched"
    by (simp add: refetched_def)
  have h3: "sent refetched \<noteq> sent mounted"
    by (simp add: refetched_eq mounted_eq)
  have h4: "0 \<in> set (inflight mounted)"
    by (simp add: mounted_eq)
  have h5: "run [Settle 1 (Resolved (ok_response 7))] refetched = Some settled"
    by (simp add: settled_def) (simp add: refetched_eq)
  have d: "data settled = Some 7"
    by (simp add: settled_eq)
  show ?thesis
    using h1 h2 h3 h4 h5 d
      superseded_request_is_aborted [OF h1 h2 h3 h4 h5, of "Resolved (ok_response 99)"]
    by simp
qed

text \<open>
  Claim C6. When a request that has not been superseded settles with a response that is not
  ok, \<open>error\<close> becomes \<open>Error: <status> <statusText>\<close>, \<open>loading\<close> becomes false and \<open>data\<close>
  is unchanged. When a request fails with an \<open>AbortError\<close>, from \<open>fetch\<close> or from reading the
  body, \<open>error\<close> is unchanged.
\<close>

theorem non_ok_response_sets_error:
  "(\<not> ok r \<and> \<not> aborted s c \<longrightarrow>
      error (fetchData_settle c (Resolved r) s)
        = Some (''Error: '' @ string_of_nat (status r) @ '' '' @ statusText r)
      \<and> loading (fetchData_settle c (Resolved r) s) = False
      \<and> data (fetchData_settle c (Resolved r) s) = data s)
 \<and> (err_name e = ''AbortError'' \<longrightarrow>
      error (fetchData_settle c (Rejected e) s) = error s)
 \<and> (ok r \<and> json r = Inl e \<and> err_name e = ''AbortError'' \<longrightarrow>
      error (fetchData_settle c (Resolved r) s) = error s)"
  by (simp add: fetchData_settle_def finally_block_def catch_block_def http_error_def aborted_def)

theorem non_ok_response_sets_error_witness:
  "\<not> ok \<lparr> ok = False, status = 404, statusText = ''Not Found'', json = Inr (0::nat) \<rparr>
 \<and> \<not> aborted mounted 0
 \<and> error (fetchData_settle 0
      (Resolved \<lparr> ok = False, status = 404, statusText = ''Not Found'', json = Inr 0 \<rparr>) mounted)
     = Some ''Error: 404 Not Found''
 \<and> loading (fetchData_settle 0
      (Resolved \<lparr> ok = False, status = 404, statusText = ''Not Found'', json = Inr 0 \<rparr>) mounted)
     = False
 \<and> data (fetchData_settle 0
      (Resolved \<lparr> ok = False, status = 404, statusText = ''Not Found'', json = Inr 0 \<rparr>) mounted)
     = None
 \<and> error (fetchData_settle 0
      (Rejected \<lparr> err_name = ''AbortError'', err_message = ''The user aborted a request.'' \<rparr>)
      mounted) = None
 \<and> error (fetchData_settle 0
      (Resolved \<lparr> ok = True, status = 200, statusText = ''OK'',
         json = Inl \<lparr> err_name = ''AbortError'', err_message = ''The user aborted a request.'' \<rparr> \<rparr>)
      mounted) = None"
proof -
  have s404: "string_of_nat 404 = ''404''"
    by code_simp
  have na: "\<not> aborted mounted 0"
    by (simp add: aborted_def mounted_eq)
  have e0: "error mounted = None" and d0: "data mounted = None"
    by (simp_all add: mounted_eq)
  show ?thesis
    using na e0 d0 s404
      non_ok_response_sets_error [of
        "\<lparr> ok = False, status = 404, statusText = ''Not Found'', json = Inr (0::nat) \<rparr>"
        mounted 0
        "\<lparr> err_name = ''AbortError'', err_message = ''The user aborted a request.'' \<rparr>"]
      non_ok_response_sets_error [of
        "\<lparr> ok = True, status = 200, statusText = ''OK'',
           json = Inl \<lparr> err_name = ''AbortError'', err_message = ''The user aborted a request.'' \<rparr> \<rparr>"
        mounted 0
        "\<lparr> err_name = ''AbortError'', err_message = ''The user aborted a request.'' \<rparr>"]
    by simp
qed

lemma sent_mount:
  "sent (useFetch_mount p u) =
     (if opt_immediate (options p) \<noteq> Some False
      then [build_request (baseUrl p) (params p) (options p) u 0] else [])"
  by (simp add: useFetch_mount_def mount_effect_def sent_fetchData useFetch_init_def)

lemma loading_fetchData: "loading (fetchData b q u s)"
  by (simp add: fetchData_def Let_def)

lemma cleanup_aborts_active:
  "hook_inv s \<Longrightarrow> activeController s = Some c \<Longrightarrow> aborted (cleanup s) c"
  by (simp add: hook_inv_def aborted_def signals_cleanup)

text \<open>
  Claim C8. Mounting sends a request exactly when \<open>options.immediate\<close> is not \<open>false\<close>
  (omitting it sends one). In every state reached after mounting, in both cases, \<open>refetch\<close> can
  be called and sends a request, and the cleanup of the effect leaves no stored controller and
  the controller stored before it aborted.
\<close>

theorem immediate_fetch_and_cleanup:
  fixes s :: "'a hook"
  assumes "run es (useFetch_mount p u) = Some s"
  shows "((sent (useFetch_mount p u :: 'a hook) \<noteq> []) = (opt_immediate (options p) \<noteq> Some False))
       \<and> (\<exists>s'. step (Refetch p u') s = Some s' \<and> length (sent s') = Suc (length (sent s))
               \<and> loading s')
       \<and> (\<exists>s'. step Unmount s = Some s' \<and> activeController s' = None
               \<and> (\<forall>c. activeController s = Some c \<longrightarrow> aborted s' c))"
proof -
  have inv: "hook_inv s"
    using hook_inv_mount assms by (rule hook_inv_run)
  have 1: "(sent (useFetch_mount p u :: 'a hook) \<noteq> []) = (opt_immediate (options p) \<noteq> Some False)"
    by (simp add: sent_mount)
  have 2: "\<exists>s'. step (Refetch p u') s = Some s' \<and> length (sent s') = Suc (length (sent s))
               \<and> loading s'"
    by (simp add: sent_fetchData loading_fetchData)
  have 3: "\<exists>s'. step Unmount s = Some s' \<and> activeController s' = None
               \<and> (\<forall>c. activeController s = Some c \<longrightarrow> aborted s' c)"
    using inv by (simp add: active_cleanup cleanup_aborts_active)
  show ?thesis using 1 2 3 by blast
qed

theorem immediate_fetch_and_cleanup_witness:
  "run [] (useFetch_mount transactions_props ''uuid-0'') = Some mounted
 \<and> opt_immediate (options transactions_props) \<noteq> Some False
 \<and> sent mounted \<noteq> []
 \<and> opt_immediate (options pay_props) = Some False
 \<and> sent (useFetch_mount pay_props ''uuid-0'' :: nat hook) = []
 \<and> length (sent (fetchData (baseUrl transactions_props) (params transactions_props) ''uuid-1'' mounted)) = 2
 \<and> activeController mounted = Some 0
 \<and> activeController (cleanup mounted) = None
 \<and> aborted (cleanup mounted) 0"
proof -
  have h1: "run [] (useFetch_mount transactions_props ''uuid-0'') = Some mounted"
    by (simp add: mounted_def)
  have h2: "run [] (useFetch_mount pay_props ''uuid-0'') = Some (useFetch_mount pay_props ''uuid-0'' :: nat hook)"
    by simp
  have a: "activeController mounted = Some 0" "length (sent mounted) = 1"
    by (simp_all add: mounted_eq)
  have i: "opt_immediate (options transactions_props) \<noteq> Some False"
      "opt_immediate (options pay_props) = Some False"
    by (simp_all add: transactions_props_def pay_props_def)
  have c1: "sent mounted \<noteq> []"
    using i(1) immediate_fetch_and_cleanup [OF h1, of "''uuid-1''"] by (simp add: mounted_def)
  have c2: "sent (useFetch_mount pay_props ''uuid-0'' :: nat hook) = []"
    using i(2) immediate_fetch_and_cleanup [OF h2, of "''uuid-1''"] by simp
  have c3: "length (sent (fetchData (baseUrl transactions_props) (params transactions_props) ''uuid-1'' mounted)) = 2"
    using a(2) immediate_fetch_and_cleanup [OF h1, of "''uuid-1''"] by simp
  have c4: "activeController (cleanup mounted) = None \<and> aborted (cleanup mounted) 0"
    using a(1) immediate_fetch_and_cleanup [OF h1, of "''uuid-1''"] by simp
  show ?thesis
    using h1 i c1 c2 c3 c4 a(1) by blast
qed

section \<open>Properties of the throttle\<close>











section \<open>Properties of the debouncer\<close>

lemma drun_snoc:
  "drun d (es @ [e]) s = (case drun d es s of None \<Rightarrow> None | Some s' \<Rightarrow> dstep d e s')"
  by (induction es arbitrary: s) (auto split: option.splits)

lemma input_times_snoc:
  "input_times (es @ [e]) = input_times es @ (case e of Input now v \<Rightarrow> [now] | Elapse now \<Rightarrow> [])"
  by (induction es rule: input_times.induct) (auto split: devent.splits)

lemma input_times_subset: "set (input_times es) \<subseteq> set (map dtime es)"
  by (induction es rule: input_times.induct) auto

lemma drun_wait_ok:
  "sorted (map dtime es) \<Longrightarrow> drun delay es (useDebounce_init v0) = Some s \<Longrightarrow> wait_ok delay es s"
proof (induction es arbitrary: s rule: rev_induct)
  case Nil
  then show ?case by (auto simp: wait_ok_def useDebounce_init_def)
next
  case (snoc e es)
  from snoc.prems(2) obtain s1 where r1: "drun delay es (useDebounce_init v0) = Some s1"
    and st: "dstep delay e s1 = Some s"
    by (auto simp: drun_snoc split: option.splits)
  from snoc.prems(1) have srt: "sorted (map dtime es)" and le: "\<forall>u \<in> set (map dtime es). u \<le> dtime e"
    by (auto simp: sorted_append)
  have le': "\<forall>u \<in> set (input_times es). u \<le> dtime e"
    using le input_times_subset by blast
  show ?case
  proof (cases e)
    case (Input now v)
    then show ?thesis using st le' by (auto simp: wait_ok_def input_times_snoc)
  next
    case (Elapse now)
    then show ?thesis using st by (auto simp: wait_ok_def split: option.splits if_splits)
  qed
qed

text \<open>
  Claim C4. When a wait elapses at time \<open>now\<close> and the debounced value updates, every input
  seen so far is at least the fixed duration old: the update follows a quiet period. An input is
  always accepted, never changes the debounced value, and restarts the wait with the full
  duration for the new value.
\<close>

theorem debounce_updates_after_quiet_period:
  fixes s :: "'a debounce"
  assumes "sorted (map dtime (es @ [Elapse now]))"
    and "drun delay (es @ [Elapse now]) (useDebounce_init v0) = Some s"
  shows "(\<forall>u \<in> set (input_times es). u + delay \<le> now)
       \<and> (\<forall>t v s1 s2. dstep delay (Input t v) s1 = Some s2 \<longrightarrow>
             debouncedValue s2 = debouncedValue s1 \<and> wait s2 = Some (t, delay, v))
       \<and> (\<forall>t v s1. dstep delay (Input t v) (s1 :: 'a debounce) \<noteq> None)"
proof -
  from assms(2) obtain s1 where r1: "drun delay es (useDebounce_init v0) = Some s1"
    and st: "dstep delay (Elapse now) s1 = Some s"
    by (auto simp: drun_snoc split: option.splits)
  from assms(1) have "sorted (map dtime es)" by (simp add: sorted_append)
  then have "wait_ok delay es s1" using r1 by (rule drun_wait_ok)
  then have "\<forall>u \<in> set (input_times es). u + delay \<le> now"
    using st by (fastforce simp: wait_ok_def split: option.splits if_splits)
  then show ?thesis by simp
qed

theorem debounce_updates_after_quiet_period_witness:
  "sorted (map dtime ([Input 0 (1::nat), Input 100 2] @ [Elapse 600]))
 \<and> drun 500 ([Input 0 (1::nat), Input 100 2] @ [Elapse 600]) (useDebounce_init 0)
     = Some \<lparr> debouncedValue = 2, wait = None \<rparr>
 \<and> input_times [Input 0 (1::nat), Input 100 2] = [0, 100]
 \<and> list_all (\<lambda>u. u + 500 \<le> 600) (input_times [Input 0 (1::nat), Input 100 2])
 \<and> drun 500 ([Input 0 (1::nat), Input 100 2] @ [Elapse 599]) (useDebounce_init 0) = None"
proof -
  have h1: "sorted (map dtime ([Input 0 (1::nat), Input 100 2] @ [Elapse 600]))"
    by simp
  have h2: "drun 500 ([Input 0 (1::nat), Input 100 2] @ [Elapse 600]) (useDebounce_init 0)
     = Some \<lparr> debouncedValue = 2, wait = None \<rparr>"
    by (simp add: useDebounce_init_def)
  have h3: "drun 500 ([Input 0 (1::nat), Input 100 2] @ [Elapse 599]) (useDebounce_init 0) = None"
    by (simp add: useDebounce_init_def)
  show ?thesis
    using h1 h2 h3 debounce_updates_after_quiet_period [OF h1 h2]
    by (simp add: list_all_iff)
qed

end
